theory Spec2Isabelle
  imports Complex_Main
begin

section \<open>Python values and exceptions\<close>

text \<open>
  The screener is one Python module, \<^verbatim>\<open>Screener.py\<close>. Its numbers are Python floats
  (IEEE doubles); here they are the real numbers they denote, so every arithmetic
  operation is exact: rounding, overflow, infinities and NaN are outside this development.
  Python integers (the periods and the list indices) are \<^typ>\<open>int\<close>, lists are HOL lists.

  Every exception of the module is an instance of Python's \<^verbatim>\<open>Exception\<close>; a function that
  can raise returns \<open>py_error + 'a\<close>, with \<open>Inl\<close> the exception raised.
\<close>

datatype py_error =
    ZeroDivisionError
  | IndexError
  | ValueError
  | BybitApiError
  | OtherException string

definition py_bind :: "py_error + 'a \<Rightarrow> ('a \<Rightarrow> py_error + 'b) \<Rightarrow> py_error + 'b" where
  "py_bind m f = (case m of Inl e \<Rightarrow> Inl e | Inr x \<Rightarrow> f x)"

text \<open>True division \<^verbatim>\<open>a / b\<close>: Python raises where HOL would return 0.\<close>

definition py_truediv :: "real \<Rightarrow> real \<Rightarrow> py_error + real" where
  "py_truediv a b = (if b = 0 then Inl ZeroDivisionError else Inr (a / b))"

text \<open>
  Subscripts \<^verbatim>\<open>xs[i]\<close>: a negative index counts from the end, and an index outside the
  list raises \<^verbatim>\<open>IndexError\<close>, on a read and on a store alike.
\<close>

definition py_index :: "nat \<Rightarrow> int \<Rightarrow> py_error + nat" where
  "py_index n i =
     (let j = (if i < 0 then int n + i else i)
      in if 0 \<le> j \<and> j < int n then Inr (nat j) else Inl IndexError)"

definition py_getitem :: "'a list \<Rightarrow> int \<Rightarrow> py_error + 'a" where
  "py_getitem xs i = py_bind (py_index (length xs) i) (\<lambda>j. Inr (xs ! j))"

definition py_setitem :: "'a list \<Rightarrow> int \<Rightarrow> 'a \<Rightarrow> py_error + 'a list" where
  "py_setitem xs i v = py_bind (py_index (length xs) i) (\<lambda>j. Inr (xs[j := v]))"

text \<open>The slice \<^verbatim>\<open>xs[:n]\<close>: never raises; a negative \<open>n\<close> drops the last \<open>-n\<close> elements.\<close>

definition py_slice_to :: "'a list \<Rightarrow> int \<Rightarrow> 'a list" where
  "py_slice_to xs n = (if n < 0 then take (nat (int (length xs) + n)) xs else take (nat n) xs)"

section \<open>The indicator engine\<close>

subsection \<open>\<^verbatim>\<open>calculate_ema\<close>\<close>

text \<open>
  \<^verbatim>\<open>for i in range(period, len(prices)): ema[i] = prices[i] * k + ema[i - 1] * (1 - k)\<close>.
  The right-hand side is evaluated before the store. \<open>stop\<close> is \<^verbatim>\<open>len(prices)\<close>, read once
  when the range is built.
\<close>

function ema_loop :: "real list \<Rightarrow> real \<Rightarrow> int \<Rightarrow> int \<Rightarrow> real list \<Rightarrow> py_error + real list" where
  "ema_loop prices k stop i ema =
     (if i < stop then
        (case py_getitem prices i of Inl e \<Rightarrow> Inl e | Inr p \<Rightarrow>
        (case py_getitem ema (i - 1) of Inl e \<Rightarrow> Inl e | Inr prev \<Rightarrow>
        (case py_setitem ema i (p * k + prev * (1 - k)) of Inl e \<Rightarrow> Inl e | Inr ema' \<Rightarrow>
           ema_loop prices k stop (i + 1) ema')))
      else Inr ema)"
  by pat_completeness auto
termination
  by (relation "measure (\<lambda>(prices, k, stop, i, ema). nat (stop - i))") auto

declare ema_loop.simps [simp del]

definition calculate_ema :: "real list \<Rightarrow> int \<Rightarrow> py_error + real list" where
  "calculate_ema prices period =
     (if int (length prices) < period then Inr []
      else
        py_bind (py_truediv 2 (real_of_int (period + 1))) (\<lambda>k.
        let ema = replicate (length prices) 0 in
        py_bind (py_truediv (sum_list (py_slice_to prices period)) (real_of_int period)) (\<lambda>seed.
        py_bind (py_setitem ema (period - 1) seed) (\<lambda>ema.
        ema_loop prices k (int (length prices)) period ema))))"

subsection \<open>\<^verbatim>\<open>calculate_rsi\<close>\<close>

text \<open>
  One row per iteration of the loop of \<^verbatim>\<open>calculate_rsi\<close>: the values its local variables
  \<^verbatim>\<open>avg_gain\<close>, \<^verbatim>\<open>avg_loss\<close>, \<^verbatim>\<open>rs\<close> and \<^verbatim>\<open>rsi_val\<close> hold when \<^verbatim>\<open>rsi_val\<close> is appended. The
  function returns the \<open>rsi_val\<close> column; the other columns are kept so that properties of
  the intermediate values can be stated.
\<close>

record rsi_row =
  avg_gain :: real
  avg_loss :: real
  rs :: real
  rsi_val :: real

text \<open>\<^verbatim>\<open>rs = avg_gain / avg_loss if avg_loss != 0 else 0\<close>\<close>

definition rs_of :: "real \<Rightarrow> real \<Rightarrow> real" where
  "rs_of g l = (if l \<noteq> 0 then g / l else 0)"

text \<open>\<^verbatim>\<open>rsi_val = 100 - (100 / (1 + rs)) if rs != 0 else 100\<close>\<close>

definition rsi_of :: "real \<Rightarrow> py_error + real" where
  "rsi_of r = (if r \<noteq> 0 then py_bind (py_truediv 100 (1 + r)) (\<lambda>q. Inr (100 - q)) else Inr 100)"

text \<open>The body of the loop at index \<open>i\<close>, from the averages the previous iteration left.\<close>

definition rsi_step :: "int \<Rightarrow> real list \<Rightarrow> real list \<Rightarrow> nat \<Rightarrow> real \<Rightarrow> real \<Rightarrow> py_error + rsi_row" where
  "rsi_step period gains losses i g l =
     py_bind
       (if int i < period then Inr (g, l)
        else
          py_bind (py_truediv (g * real_of_int (period - 1) + gains ! i) (real_of_int period)) (\<lambda>g'.
          py_bind (py_truediv (l * real_of_int (period - 1) + losses ! i) (real_of_int period)) (\<lambda>l'.
          Inr (g', l'))))
       (\<lambda>(g', l').
          py_bind (rsi_of (rs_of g' l')) (\<lambda>v.
          Inr \<lparr>avg_gain = g', avg_loss = l', rs = rs_of g' l', rsi_val = v\<rparr>))"

text \<open>\<^verbatim>\<open>for i in range(len(changes))\<close>, over the list of indices.\<close>

fun rsi_loop :: "int \<Rightarrow> real list \<Rightarrow> real list \<Rightarrow> nat list \<Rightarrow> real \<Rightarrow> real \<Rightarrow> rsi_row list
    \<Rightarrow> py_error + rsi_row list" where
  "rsi_loop period gains losses [] g l rsi = Inr rsi"
| "rsi_loop period gains losses (i # rest) g l rsi =
     (case rsi_step period gains losses i g l of
        Inl e \<Rightarrow> Inl e
      | Inr row \<Rightarrow> rsi_loop period gains losses rest (avg_gain row) (avg_loss row) (rsi @ [row]))"

definition changes_of :: "real list \<Rightarrow> real list" where
  "changes_of prices = map (\<lambda>i. prices ! i - prices ! (i - 1)) [1..<length prices]"

definition gains_of :: "real list \<Rightarrow> real list" where
  "gains_of prices = map (\<lambda>c. max c 0) (changes_of prices)"

definition losses_of :: "real list \<Rightarrow> real list" where
  "losses_of prices = map (\<lambda>c. max (- c) 0) (changes_of prices)"

definition rsi_rows :: "real list \<Rightarrow> int \<Rightarrow> py_error + rsi_row list" where
  "rsi_rows prices period =
     (if int (length prices) \<le> period then Inr []
      else
        let gains = gains_of prices; losses = losses_of prices in
        py_bind (py_truediv (sum_list (py_slice_to gains period)) (real_of_int period)) (\<lambda>g.
        py_bind (py_truediv (sum_list (py_slice_to losses period)) (real_of_int period)) (\<lambda>l.
        rsi_loop period gains losses [0..<length (changes_of prices)] g l [])))"

definition calculate_rsi :: "real list \<Rightarrow> int \<Rightarrow> py_error + real list" where
  "calculate_rsi prices period = py_bind (rsi_rows prices period) (\<lambda>rows. Inr (map rsi_val rows))"

text \<open>
  What a row of the loop satisfies when the averages the iteration starts from are not
  negative; used to state the invariant of the loop.
\<close>

definition rsi_row_ok :: "rsi_row \<Rightarrow> bool" where
  "rsi_row_ok row =
     (0 \<le> avg_gain row \<and> 0 \<le> avg_loss row \<and> 0 \<le> rs row
      \<and> rs row = rs_of (avg_gain row) (avg_loss row)
      \<and> (if rs row = 0 then rsi_val row = 100 else 0 < rsi_val row \<and> rsi_val row < 100))"

section \<open>The exchanges\<close>

text \<open>
  The module reads the exchanges over HTTP. What an exchange answers is not part of the
  program, so it is a parameter of the model, the record \<open>world\<close>: each field is the outcome
  of one request, already decoded as far as the module decodes it, or the exception that
  the request or the decoding raises. \<open>py_int\<close> is Python's built-in \<^verbatim>\<open>int\<close> on the text of a
  query parameter and \<open>utcnow_isoformat\<close> is \<^verbatim>\<open>datetime.utcnow().isoformat()\<close>, read once at the end
  of a scan. Every function
  that sends a request returns, beside its result, the requests it sent.
\<close>

datatype http_call =
    GetBinanceTicker
  | GetBybitInstruments
  | GetBinanceKlines string string
  | GetBybitKlines string string

record bybit_instrument =
  inst_symbol :: string
  inst_status :: string
  inst_quoteCoin :: string

record world =
  py_int :: "string \<Rightarrow> py_error + int"
  binance_ticker :: "py_error + string list"
  bybit_instruments :: "py_error + int \<times> (py_error + bybit_instrument list)"
  binance_klines :: "string \<Rightarrow> string \<Rightarrow> py_error + real list"
  bybit_klines :: "string \<Rightarrow> string \<Rightarrow> py_error + int \<times> (py_error + real list)"
  utcnow_isoformat :: string

definition endswith :: "string \<Rightarrow> string \<Rightarrow> bool" where
  "endswith s suffix = (length suffix \<le> length s \<and> drop (length s - length suffix) s = suffix)"

definition get_binance_symbols :: "world \<Rightarrow> (py_error + string list) \<times> http_call list" where
  "get_binance_symbols w =
     (py_bind (binance_ticker w) (\<lambda>data. Inr (filter (\<lambda>symbol. endswith symbol ''USDT'') data)),
      [GetBinanceTicker])"

definition get_bybit_symbols :: "world \<Rightarrow> (py_error + string list) \<times> http_call list" where
  "get_bybit_symbols w =
     (py_bind (bybit_instruments w) (\<lambda>(retCode, items).
        if retCode \<noteq> 0 then Inl BybitApiError
        else py_bind items (\<lambda>items.
          Inr (map inst_symbol
                (filter (\<lambda>item. inst_status item = ''Trading'' \<and> inst_quoteCoin item = ''USDT'') items)))),
      [GetBybitInstruments])"

definition bybit_interval_map :: "string \<rightharpoonup> string" where
  "bybit_interval_map =
     map_of [(''1m'', ''1''), (''5m'', ''5''), (''15m'', ''15''), (''30m'', ''30''),
             (''1h'', ''60''), (''4h'', ''240''), (''1d'', ''D'')]"

text \<open>\<^verbatim>\<open>fetch_klines(exchange, symbol, interval, limit=100)\<close>; the handler never passes another limit.\<close>

definition fetch_klines :: "world \<Rightarrow> string \<Rightarrow> string \<Rightarrow> string \<Rightarrow> (py_error + real list) \<times> http_call list" where
  "fetch_klines w exchange symbol interval =
     (if exchange = ''binance'' then
        (binance_klines w symbol interval, [GetBinanceKlines symbol interval])
      else if exchange = ''bybit'' then
        (let interval = (case bybit_interval_map interval of None \<Rightarrow> interval | Some v \<Rightarrow> v) in
         (py_bind (bybit_klines w symbol interval) (\<lambda>(retCode, closes).
            if retCode \<noteq> 0 then Inr [] else closes),
          [GetBybitKlines symbol interval]))
      else (Inr [], []))"

section \<open>The handler\<close>

record event =
  queryStringParameters :: "(string \<rightharpoonup> string) option"

record request =
  req_exchange :: string
  req_timeframe :: string
  ema_short :: int
  ema_long :: int
  rsi_period :: int

record signal =
  sg_symbol :: string
  sg_price :: real
  sg_emaShort :: real
  sg_emaLong :: real
  sg_rsi :: "real option"
  sg_timeframe :: string

datatype body =
    ErrorMessage string
  | ErrorOf py_error
  | ScanResult "signal list" nat string

record response =
  statusCode :: int
  headers :: "(string \<times> string) list"
  body :: body

text \<open>\<^verbatim>\<open>int(query.get(key, default))\<close>\<close>

definition int_param :: "world \<Rightarrow> (string \<rightharpoonup> string) \<Rightarrow> string \<Rightarrow> int \<Rightarrow> py_error + int" where
  "int_param w query key dflt = (case query key of None \<Rightarrow> Inr dflt | Some v \<Rightarrow> py_int w v)"

text \<open>The first lines of the handler: the five parameters, in the order the code reads them.\<close>

definition parse_request :: "world \<Rightarrow> event \<Rightarrow> py_error + request" where
  "parse_request w ev =
     (let query = (case queryStringParameters ev of None \<Rightarrow> Map.empty | Some q \<Rightarrow> q);
          exchange = (case query ''exchange'' of None \<Rightarrow> ''binance'' | Some v \<Rightarrow> v);
          timeframe = (case query ''timeframe'' of None \<Rightarrow> ''1m'' | Some v \<Rightarrow> v)
      in
        py_bind (int_param w query ''emaShort'' 9) (\<lambda>ema_short.
        py_bind (int_param w query ''emaLong'' 26) (\<lambda>ema_long.
        py_bind (int_param w query ''rsiPeriod'' 14) (\<lambda>rsi_period.
        Inr \<lparr>req_exchange = exchange, req_timeframe = timeframe, ema_short = ema_short,
             ema_long = ema_long, rsi_period = rsi_period\<rparr>))))"

text \<open>
  \<^verbatim>\<open>round(x, n)\<close> on the exact value: the nearest multiple of \<open>10\<^sup>-\<^sup>n\<close>, a tie going to the
  even one.
\<close>

definition round_half_even :: "real \<Rightarrow> int" where
  "round_half_even x =
     (let f = \<lfloor>x\<rfloor>; d = x - real_of_int f
      in if d < 1 / 2 then f else if 1 / 2 < d then f + 1 else if even f then f else f + 1)"

definition py_round :: "real \<Rightarrow> nat \<Rightarrow> real" where
  "py_round x n = real_of_int (round_half_even (x * 10 ^ n)) / 10 ^ n"

text \<open>
  \<^verbatim>\<open>ema_s[-1] > ema_l[-1] and ema_s[-2] <= ema_l[-2]\<close>; \<^verbatim>\<open>and\<close> evaluates its right operand
  only when the left one is true.
\<close>

definition fresh_crossover :: "real list \<Rightarrow> real list \<Rightarrow> py_error + bool" where
  "fresh_crossover ema_s ema_l =
     py_bind (py_getitem ema_s (- 1)) (\<lambda>s1.
     py_bind (py_getitem ema_l (- 1)) (\<lambda>l1.
     if s1 > l1 then
       py_bind (py_getitem ema_s (- 2)) (\<lambda>s2.
       py_bind (py_getitem ema_l (- 2)) (\<lambda>l2.
       Inr (s2 \<le> l2)))
     else Inr False))"

text \<open>The dictionary appended to \<^verbatim>\<open>signals\<close>.\<close>

definition make_signal :: "string \<Rightarrow> string \<Rightarrow> real list \<Rightarrow> real list \<Rightarrow> real list \<Rightarrow> real list
    \<Rightarrow> py_error + signal" where
  "make_signal symbol timeframe closes ema_s ema_l rsi_vals =
     py_bind (py_getitem closes (- 1)) (\<lambda>price.
     py_bind (py_getitem ema_s (- 1)) (\<lambda>s1.
     py_bind (py_getitem ema_l (- 1)) (\<lambda>l1.
     py_bind (if rsi_vals \<noteq> [] then py_bind (py_getitem rsi_vals (- 1)) (\<lambda>r. Inr (Some (py_round r 2)))
              else Inr None) (\<lambda>rsi.
     Inr \<lparr>sg_symbol = symbol, sg_price = price, sg_emaShort = py_round s1 4,
          sg_emaLong = py_round l1 4, sg_rsi = rsi, sg_timeframe = timeframe\<rparr>))))"

text \<open>
  The body of the inner \<^verbatim>\<open>try\<close> for one symbol: \<open>Inl e\<close> when it raises \<open>e\<close>, \<open>Inr None\<close> when it
  ends without a signal (a \<^verbatim>\<open>continue\<close>, or no crossover), \<open>Inr (Some sg)\<close> when it appends \<open>sg\<close>.
\<close>

definition scan_symbol :: "world \<Rightarrow> request \<Rightarrow> string \<Rightarrow> (py_error + signal option) \<times> http_call list" where
  "scan_symbol w req symbol =
     (let (fetched, calls) = fetch_klines w (req_exchange req) symbol (req_timeframe req) in
      (py_bind fetched (\<lambda>closes.
         if int (length closes) < max (ema_long req) (rsi_period req) + 10 then Inr None
         else
           py_bind (calculate_ema closes (ema_short req)) (\<lambda>ema_s.
           py_bind (calculate_ema closes (ema_long req)) (\<lambda>ema_l.
           py_bind (calculate_rsi closes (rsi_period req)) (\<lambda>rsi_vals.
           if length ema_s < 2 \<or> length ema_l < 2 then Inr None
           else
             py_bind (fresh_crossover ema_s ema_l) (\<lambda>cross.
             if cross then
               py_bind (make_signal symbol (req_timeframe req) closes ema_s ema_l rsi_vals) (\<lambda>sg.
               Inr (Some sg))
             else Inr None))))),
       calls))"

text \<open>
  \<^verbatim>\<open>for symbol in symbols[:50]\<close> with its \<^verbatim>\<open>except Exception: continue\<close>: an exception of the
  body leaves \<^verbatim>\<open>signals\<close> as it was and the loop goes on.
\<close>

fun scan_loop :: "world \<Rightarrow> request \<Rightarrow> string list \<Rightarrow> signal list \<Rightarrow> http_call list
    \<Rightarrow> signal list \<times> http_call list" where
  "scan_loop w req [] signals sent = (signals, sent)"
| "scan_loop w req (symbol # rest) signals sent =
     (case scan_symbol w req symbol of
        (Inl e, calls) \<Rightarrow> scan_loop w req rest signals (sent @ calls)
      | (Inr None, calls) \<Rightarrow> scan_loop w req rest signals (sent @ calls)
      | (Inr (Some sg), calls) \<Rightarrow> scan_loop w req rest (signals @ [sg]) (sent @ calls))"

definition validation_response :: response where
  "validation_response =
     \<lparr>statusCode = 400, headers = [(''Content-Type'', ''application/json'')],
      body = ErrorMessage ''EMA Short must be < EMA Long''\<rparr>"

definition error_response :: "py_error \<Rightarrow> response" where
  "error_response e =
     \<lparr>statusCode = 500, headers = [(''Content-Type'', ''application/json'')], body = ErrorOf e\<rparr>"

definition ok_response :: "signal list \<Rightarrow> string \<Rightarrow> response" where
  "ok_response signals now =
     \<lparr>statusCode = 200,
      headers = [(''Content-Type'', ''application/json''), (''Access-Control-Allow-Origin'', ''*'')],
      body = ScanResult signals (length signals) (now @ ''Z'')\<rparr>"

text \<open>\<^verbatim>\<open>get_binance_symbols() if exchange == 'binance' else get_bybit_symbols()\<close>\<close>

definition list_symbols :: "world \<Rightarrow> request \<Rightarrow> (py_error + string list) \<times> http_call list" where
  "list_symbols w req =
     (if req_exchange req = ''binance'' then get_binance_symbols w else get_bybit_symbols w)"

text \<open>
  \<^verbatim>\<open>handler(event, context)\<close>: the response and the requests sent to the exchanges, in order.
  The outer \<^verbatim>\<open>except Exception\<close> turns an exception of the parameters or of the symbol list
  into the 500 response.
\<close>

definition handler :: "world \<Rightarrow> event \<Rightarrow> response \<times> http_call list" where
  "handler w ev =
     (case parse_request w ev of
        Inl e \<Rightarrow> (error_response e, [])
      | Inr req \<Rightarrow>
          if ema_short req \<ge> ema_long req then (validation_response, [])
          else
            (let (listed, calls) = list_symbols w req
             in case listed of
                  Inl e \<Rightarrow> (error_response e, calls)
                | Inr symbols \<Rightarrow>
                    (let (signals, sent) = scan_loop w req (take 50 symbols) [] calls
                     in (ok_response signals (utcnow_isoformat w), sent))))"

text \<open>
  The signal the loop appends for a symbol, if it appends one: \<open>None\<close> when the body of the
  \<^verbatim>\<open>try\<close> raises or ends without a signal.
\<close>

definition symbol_signal :: "world \<Rightarrow> request \<Rightarrow> string \<Rightarrow> signal option" where
  "symbol_signal w req symbol =
     (case fst (scan_symbol w req symbol) of Inl e \<Rightarrow> None | Inr found \<Rightarrow> found)"

section \<open>A test world\<close>

text \<open>
  Concrete inputs on which the theorems below are instantiated: an exchange that lists four
  symbols, fails on the candles of the first, serves a series whose fast average crosses
  above the slow one on the last bar for the second, and a flat series for the others.
\<close>

definition test_world :: world where
  "test_world =
     \<lparr>py_int = (\<lambda>v. case map_of [(''0'', 0), (''1'', 1), (''2'', 2), (''10'', 10), (''30'', 30)] v of
                      None \<Rightarrow> Inl ValueError | Some n \<Rightarrow> Inr n),
      binance_ticker = Inr [''DOWNUSDT'', ''ABCUSDT'', ''ETHBTC'', ''FLATUSDT''],
      bybit_instruments = Inl (OtherException ''ConnectionError''),
      binance_klines = (\<lambda>symbol interval.
         if symbol = ''DOWNUSDT'' then Inl (OtherException ''ConnectionError'')
         else if symbol = ''ABCUSDT'' then Inr [10, 10, 10, 10, 10, 10, 10, 10, 10, 10, 1, 100]
         else Inr [5, 5, 5, 5, 5, 5, 5, 5, 5, 5, 5, 5]),
      bybit_klines = (\<lambda>symbol interval. Inl (OtherException ''ConnectionError'')),
      utcnow_isoformat = ''2024-01-01T00:00:00''\<rparr>"

definition test_event :: "string \<Rightarrow> string \<Rightarrow> event" where
  "test_event short long =
     \<lparr>queryStringParameters = Some [''emaShort'' \<mapsto> short, ''emaLong'' \<mapsto> long, ''rsiPeriod'' \<mapsto> ''2'']\<rparr>"

definition test_request :: "int \<Rightarrow> int \<Rightarrow> request" where
  "test_request short long =
     \<lparr>req_exchange = ''binance'', req_timeframe = ''1m'', ema_short = short, ema_long = long,
      rsi_period = 2\<rparr>"

definition abc_closes :: "real list" where
  "abc_closes = [10, 10, 10, 10, 10, 10, 10, 10, 10, 10, 1, 100]"

definition abc_signal :: signal where
  "abc_signal =
     \<lparr>sg_symbol = ''ABCUSDT'', sg_price = 100, sg_emaShort = 100, sg_emaLong = 68,
      sg_rsi = Some (1913 / 20), sg_timeframe = ''1m''\<rparr>"

section \<open>Subscripts and slices at indices in range\<close>

lemma py_index_nat: "i < n \<Longrightarrow> py_index n (int i) = Inr i"
  by (simp add: py_index_def)

lemma py_getitem_nat: "i < length xs \<Longrightarrow> py_getitem xs (int i) = Inr (xs ! i)"
  by (simp add: py_getitem_def py_bind_def py_index_nat)

lemma py_setitem_nat: "i < length xs \<Longrightarrow> py_setitem xs (int i) v = Inr (xs[i := v])"
  by (simp add: py_setitem_def py_bind_def py_index_nat)

lemma ema_loop_stop: "stop \<le> i \<Longrightarrow> ema_loop prices k stop i ema = Inr ema"
  by (simp add: ema_loop.simps)

lemma ema_loop_step:
  assumes "i < length prices" "1 \<le> i" "length ema = length prices"
  shows "ema_loop prices k (int (length prices)) (int i) ema =
         ema_loop prices k (int (length prices)) (int (Suc i))
           (ema[i := prices ! i * k + ema ! (i - 1) * (1 - k)])"
proof -
  have prev: "int i - 1 = int (i - 1)" using assms(2) by simp
  have "i - 1 < length ema" using assms by simp
  then have g: "py_getitem ema (int i - 1) = Inr (ema ! (i - 1))"
    unfolding prev by (rule py_getitem_nat)
  have nxt: "int i + 1 = int (Suc i)" by simp
  show ?thesis
    using assms
    by (subst ema_loop.simps) (simp only: py_getitem_nat py_setitem_nat g nxt, simp)
qed

lemma ema_loop_invariant:
  assumes "d = length prices - i" "1 \<le> i" "i \<le> length prices" "length ema = length prices"
  shows "\<exists>ema'. ema_loop prices k (int (length prices)) (int i) ema = Inr ema'
           \<and> length ema' = length prices
           \<and> (\<forall>j<i. ema' ! j = ema ! j)
           \<and> (\<forall>j. i \<le> j \<and> j < length prices \<longrightarrow>
                 ema' ! j = prices ! j * k + ema' ! (j - 1) * (1 - k))"
  using assms
proof (induction d arbitrary: i ema)
  case 0
  then have "i = length prices" by simp
  with 0 show ?case by (simp add: ema_loop_stop)
next
  case (Suc d)
  let ?e = "ema[i := prices ! i * k + ema ! (i - 1) * (1 - k)]"
  have lt: "i < length prices" using Suc.prems by simp
  have "\<exists>ema'. ema_loop prices k (int (length prices)) (int (Suc i)) ?e = Inr ema'
           \<and> length ema' = length prices
           \<and> (\<forall>j<Suc i. ema' ! j = ?e ! j)
           \<and> (\<forall>j. Suc i \<le> j \<and> j < length prices \<longrightarrow>
                 ema' ! j = prices ! j * k + ema' ! (j - 1) * (1 - k))"
    using Suc.prems by (intro Suc.IH) simp_all
  then obtain ema' where r: "ema_loop prices k (int (length prices)) (int (Suc i)) ?e = Inr ema'"
    and len: "length ema' = length prices"
    and keep: "\<forall>j<Suc i. ema' ! j = ?e ! j"
    and rec: "\<forall>j. Suc i \<le> j \<and> j < length prices \<longrightarrow>
                 ema' ! j = prices ! j * k + ema' ! (j - 1) * (1 - k)"
    by blast
  have run: "ema_loop prices k (int (length prices)) (int i) ema = Inr ema'"
    using ema_loop_step [OF lt Suc.prems(2) Suc.prems(4)] r by simp
  have old: "\<forall>j<i. ema' ! j = ema ! j"
    using keep by (auto simp: nth_list_update)
  have at_i: "ema' ! i = prices ! i * k + ema' ! (i - 1) * (1 - k)"
  proof -
    have "ema' ! i = ?e ! i" using keep by simp
    also have "\<dots> = prices ! i * k + ema ! (i - 1) * (1 - k)"
      using lt Suc.prems(4) by simp
    also have "ema ! (i - 1) = ema' ! (i - 1)"
      using old Suc.prems(2) by simp
    finally show ?thesis .
  qed
  have "\<forall>j. i \<le> j \<and> j < length prices \<longrightarrow>
                 ema' ! j = prices ! j * k + ema' ! (j - 1) * (1 - k)"
  proof (intro allI impI)
    fix j assume j: "i \<le> j \<and> j < length prices"
    show "ema' ! j = prices ! j * k + ema' ! (j - 1) * (1 - k)"
    proof (cases "j = i")
      case True then show ?thesis using at_i by simp
    next
      case False then show ?thesis using rec j by simp
    qed
  qed
  with run len old show ?case by blast
qed


lemma py_slice_to_nat: "py_slice_to xs (int n) = take n xs"
  by (simp add: py_slice_to_def)


lemma calculate_ema_pos:
  assumes p: "1 \<le> p" and len: "p \<le> length prices"
  defines "k \<equiv> 2 / real_of_int (int p + 1)"
  shows "\<exists>ema. calculate_ema prices (int p) = Inr ema
           \<and> length ema = length prices
           \<and> ema ! (p - 1) = sum_list (take p prices) / real p
           \<and> (\<forall>j<p - 1. ema ! j = 0)
           \<and> (\<forall>i. p \<le> i \<and> i < length prices \<longrightarrow>
                 ema ! i = prices ! i * k + ema ! (i - 1) * (1 - k))"
proof -
  let ?seeded = "(replicate (length prices) (0::real))[p - 1 := sum_list (take p prices) / real p]"
  have idx: "int p - 1 = int (p - 1)" using p by simp
  have set: "py_setitem (replicate (length prices) (0::real)) (int p - 1) v
               = Inr ((replicate (length prices) 0)[p - 1 := v])" for v
    unfolding idx using p len by (intro py_setitem_nat) simp
  have unfold: "calculate_ema prices (int p) = ema_loop prices k (int (length prices)) (int p) ?seeded"
    using p len
    by (simp add: calculate_ema_def py_bind_def py_truediv_def py_slice_to_nat set k_def Let_def)
  have "\<exists>ema'. ema_loop prices k (int (length prices)) (int p) ?seeded = Inr ema'
           \<and> length ema' = length prices
           \<and> (\<forall>j<p. ema' ! j = ?seeded ! j)
           \<and> (\<forall>j. p \<le> j \<and> j < length prices \<longrightarrow>
                 ema' ! j = prices ! j * k + ema' ! (j - 1) * (1 - k))"
    using p len by (intro ema_loop_invariant [where d = "length prices - p"]) simp_all
  then obtain ema where run: "ema_loop prices k (int (length prices)) (int p) ?seeded = Inr ema"
    and l: "length ema = length prices"
    and keep: "\<forall>j<p. ema ! j = ?seeded ! j"
    and rec: "\<forall>j. p \<le> j \<and> j < length prices \<longrightarrow>
                 ema ! j = prices ! j * k + ema ! (j - 1) * (1 - k)"
    by blast
  have seed: "ema ! (p - 1) = sum_list (take p prices) / real p"
    using keep p len by simp
  have zero: "\<forall>j<p - 1. ema ! j = 0"
    using keep p len by simp
  from unfold run l seed zero rec show ?thesis by simp
qed

section \<open>The EMA series\<close>



text \<open>
  In exact arithmetic a constant series is a fixed point of the recurrence: the seed is
  \<open>P * V / P = V\<close> and each later entry is \<open>V * k + V * (1 - k) = V\<close>. Both steps cancel only
  because the reals are exact; Python's doubles round each operation, so for the program the
  equality holds up to rounding only.
\<close>

lemma calculate_ema_constant_exact:
  assumes p: "1 \<le> p" and len: "p \<le> L"
  shows "\<exists>ema. calculate_ema (replicate L V) (int p) = Inr ema \<and> length ema = L
           \<and> (\<forall>i. p - 1 \<le> i \<and> i < L \<longrightarrow> ema ! i = V)"
proof -
  define k where "k = 2 / real_of_int (int p + 1)"
  from calculate_ema_pos [of p "replicate L V"] p len
  obtain ema where e: "calculate_ema (replicate L V) (int p) = Inr ema" "length ema = L"
      "ema ! (p - 1) = sum_list (take p (replicate L V)) / real p"
      "\<forall>i. p \<le> i \<and> i < L \<longrightarrow> ema ! i = replicate L V ! i * k + ema ! (i - 1) * (1 - k)"
    unfolding k_def by auto
  have "take p (replicate L V) = replicate p V" using len by (simp add: min_def)
  then have seed: "ema ! (p - 1) = V" using e(3) p by (simp add: sum_list_replicate)
  have "i < L \<Longrightarrow> ema ! i = V" if "p - 1 \<le> i" for i
    using that
  proof (induction i rule: dec_induct)
    case base
    show ?case by (rule seed)
  next
    case (step n)
    have n: "p \<le> Suc n" using step.hyps(1) by simp
    have "ema ! Suc n = replicate L V ! Suc n * k + ema ! n * (1 - k)"
      using e(4) n step.prems by simp
    also have "ema ! n = V" using step.IH step.prems by simp
    finally show ?case using step.prems by (simp add: algebra_simps)
  qed
  with e(1,2) show ?thesis by blast
qed

section \<open>The RSI series\<close>

lemma rsi_loop_rows:
  assumes step: "\<And>i g l. i \<in> set idxs \<Longrightarrow> Inv g l \<Longrightarrow>
            \<exists>row. rsi_step period gains losses i g l = Inr row
                  \<and> Inv (avg_gain row) (avg_loss row) \<and> Q row"
    and inv: "Inv g l"
  shows "\<exists>rows. rsi_loop period gains losses idxs g l rsi = Inr (rsi @ rows)
           \<and> length rows = length idxs \<and> (\<forall>row\<in>set rows. Q row)"
  using assms
proof (induction idxs arbitrary: g l rsi)
  case Nil
  then show ?case by simp
next
  case (Cons i rest)
  from Cons.prems(1) [of i g l] Cons.prems(2)
  obtain row where row: "rsi_step period gains losses i g l = Inr row"
      "Inv (avg_gain row) (avg_loss row)" "Q row"
    by auto
  have "\<exists>rows. rsi_loop period gains losses rest (avg_gain row) (avg_loss row) (rsi @ [row])
                  = Inr ((rsi @ [row]) @ rows)
           \<and> length rows = length rest \<and> (\<forall>r\<in>set rows. Q r)"
    using Cons.prems(1) row(2) by (intro Cons.IH) auto
  then obtain rows where rows:
      "rsi_loop period gains losses rest (avg_gain row) (avg_loss row) (rsi @ [row])
         = Inr ((rsi @ [row]) @ rows)"
      "length rows = length rest" "\<forall>r\<in>set rows. Q r"
    by blast
  have "rsi_loop period gains losses (i # rest) g l rsi = Inr (rsi @ (row # rows))"
    using row(1) rows(1) by simp
  moreover have "length (row # rows) = length (i # rest)" using rows(2) by simp
  moreover have "\<forall>r\<in>set (row # rows). Q r" using row(3) rows(3) by simp
  ultimately show ?case by blast
qed

lemma rs_of_nonneg: "0 \<le> g \<Longrightarrow> 0 \<le> l \<Longrightarrow> 0 \<le> rs_of g l"
  by (simp add: rs_of_def)

lemma rs_of_zero: "l = 0 \<or> g = 0 \<Longrightarrow> rs_of g l = 0"
  by (auto simp: rs_of_def)

lemma rsi_of_zero: "rsi_of 0 = Inr 100"
  by (simp add: rsi_of_def)

lemma rsi_of_pos:
  assumes "0 < r"
  shows "rsi_of r = Inr (100 - 100 / (1 + r))" and "0 < 100 - 100 / (1 + r)"
    and "100 - 100 / (1 + r) < 100"
proof -
  have pos: "0 < 1 + r" using assms by simp
  show "rsi_of r = Inr (100 - 100 / (1 + r))"
    using assms by (simp add: rsi_of_def py_truediv_def py_bind_def)
  have "100 / (1 + r) < 100 / 1"
    using assms by (intro divide_strict_left_mono) simp_all
  then show "0 < 100 - 100 / (1 + r)" by simp
  show "100 - 100 / (1 + r) < 100" using pos by simp
qed

lemma rsi_step_ok:
  assumes P: "1 \<le> P" and g: "0 \<le> g" and l: "0 \<le> l"
    and gi: "0 \<le> gains ! i" and li: "0 \<le> losses ! i"
  shows "\<exists>row. rsi_step P gains losses i g l = Inr row
           \<and> (0 \<le> avg_gain row \<and> 0 \<le> avg_loss row) \<and> rsi_row_ok row"
proof -
  define g' where "g' = (if int i < P then g else (g * real_of_int (P - 1) + gains ! i) / real_of_int P)"
  define l' where "l' = (if int i < P then l else (l * real_of_int (P - 1) + losses ! i) / real_of_int P)"
  have g'0: "0 \<le> g'" using P g gi by (simp add: g'_def)
  have l'0: "0 \<le> l'" using P l li by (simp add: l'_def)
  have r0: "0 \<le> rs_of g' l'" using g'0 l'0 by (rule rs_of_nonneg)
  have avgs: "(if int i < P then Inr (g, l)
        else
          py_bind (py_truediv (g * real_of_int (P - 1) + gains ! i) (real_of_int P)) (\<lambda>g'.
          py_bind (py_truediv (l * real_of_int (P - 1) + losses ! i) (real_of_int P)) (\<lambda>l'.
          Inr (g', l')))) = Inr (g', l')"
    using P by (simp add: g'_def l'_def py_truediv_def py_bind_def)
  obtain v where v: "rsi_of (rs_of g' l') = Inr v"
      and vr: "if rs_of g' l' = 0 then v = 100 else 0 < v \<and> v < 100"
  proof (cases "rs_of g' l' = 0")
    case True
    then show ?thesis using that [of 100] by (simp add: rsi_of_zero)
  next
    case False
    then have "0 < rs_of g' l'" using r0 by simp
    from rsi_of_pos [OF this] False show ?thesis using that by simp
  qed
  let ?row = "\<lparr>avg_gain = g', avg_loss = l', rs = rs_of g' l', rsi_val = v\<rparr>"
  have "rsi_step P gains losses i g l = Inr ?row"
    unfolding rsi_step_def avgs using v by (simp add: py_bind_def)
  moreover have "rsi_row_ok ?row"
    using g'0 l'0 r0 vr by (simp add: rsi_row_ok_def)
  ultimately show ?thesis using g'0 l'0 by (intro exI [of _ ?row]) simp
qed

lemma length_changes_of [simp]: "length (changes_of prices) = length prices - 1"
  by (simp add: changes_of_def)

lemma length_gains_of [simp]: "length (gains_of prices) = length prices - 1"
  by (simp add: gains_of_def)

lemma length_losses_of [simp]: "length (losses_of prices) = length prices - 1"
  by (simp add: losses_of_def)

lemma gains_of_nonneg: "i < length prices - 1 \<Longrightarrow> 0 \<le> gains_of prices ! i"
  by (simp add: gains_of_def)

lemma losses_of_nonneg: "i < length prices - 1 \<Longrightarrow> 0 \<le> losses_of prices ! i"
  by (simp add: losses_of_def)

lemma sum_list_take_nonneg:
  assumes "\<And>i. i < length xs \<Longrightarrow> (0::real) \<le> xs ! i"
  shows "0 \<le> sum_list (take n xs)"
proof (rule sum_list_nonneg)
  fix x assume "x \<in> set (take n xs)"
  then have "x \<in> set xs" by (rule in_set_takeD)
  then show "0 \<le> x" using assms by (auto simp: in_set_conv_nth)
qed


lemma rsi_rows_ok:
  assumes P: "1 \<le> P" and len: "P < int (length prices)"
  shows "\<exists>rows. rsi_rows prices P = Inr rows \<and> length rows = length prices - 1
           \<and> (\<forall>row\<in>set rows. rsi_row_ok row)"
proof -
  define p where "p = nat P"
  have Pp: "P = int p" using P by (simp add: p_def)
  let ?g = "sum_list (take p (gains_of prices)) / real_of_int P"
  let ?l = "sum_list (take p (losses_of prices)) / real_of_int P"
  have g0: "0 \<le> ?g"
    using P by (intro divide_nonneg_nonneg sum_list_take_nonneg gains_of_nonneg) simp_all
  have l0: "0 \<le> ?l"
    using P by (intro divide_nonneg_nonneg sum_list_take_nonneg losses_of_nonneg) simp_all
  have unfold: "rsi_rows prices P
      = rsi_loop P (gains_of prices) (losses_of prices) [0..<length prices - 1] ?g ?l []"
    using P len by (simp add: rsi_rows_def py_truediv_def py_bind_def Pp py_slice_to_def Let_def)
  have "\<exists>rows. rsi_loop P (gains_of prices) (losses_of prices) [0..<length prices - 1] ?g ?l []
                  = Inr ([] @ rows)
           \<and> length rows = length [0..<length prices - 1] \<and> (\<forall>row\<in>set rows. rsi_row_ok row)"
  proof (rule rsi_loop_rows [where Inv = "\<lambda>g l. 0 \<le> g \<and> 0 \<le> l"])
    show "0 \<le> ?g \<and> 0 \<le> ?l" using g0 l0 by simp
  next
    fix i and g l :: real
    assume "i \<in> set [0..<length prices - 1]" and "0 \<le> g \<and> 0 \<le> l"
    then show "\<exists>row. rsi_step P (gains_of prices) (losses_of prices) i g l = Inr row
                 \<and> (0 \<le> avg_gain row \<and> 0 \<le> avg_loss row) \<and> rsi_row_ok row"
      using P by (intro rsi_step_ok gains_of_nonneg losses_of_nonneg) simp_all
  qed
  then show ?thesis unfolding unfold by simp
qed

lemma sum_list_zeros: "\<forall>x\<in>set xs. x = (0::real) \<Longrightarrow> sum_list xs = 0"
  by (induction xs) auto

lemma rsi_step_no_gain:
  assumes P: "1 \<le> P" and g: "g = 0" and gi: "gains ! i = 0"
  shows "\<exists>row. rsi_step P gains losses i g l = Inr row
           \<and> avg_gain row = 0 \<and> rsi_val row = 100"
proof -
  define l' where "l' = (if int i < P then l else (l * real_of_int (P - 1) + losses ! i) / real_of_int P)"
  have avgs: "(if int i < P then Inr (g, l)
        else
          py_bind (py_truediv (g * real_of_int (P - 1) + gains ! i) (real_of_int P)) (\<lambda>g'.
          py_bind (py_truediv (l * real_of_int (P - 1) + losses ! i) (real_of_int P)) (\<lambda>l'.
          Inr (g', l')))) = Inr (0, l')"
    using P g gi by (simp add: l'_def py_truediv_def py_bind_def)
  have "rs_of 0 l' = 0" by (simp add: rs_of_zero)
  then have "rsi_step P gains losses i g l
               = Inr \<lparr>avg_gain = 0, avg_loss = l', rs = 0, rsi_val = 100\<rparr>"
    unfolding rsi_step_def avgs by (simp add: py_bind_def rsi_of_zero)
  then show ?thesis by simp
qed

lemma gains_of_decreasing:
  assumes "\<forall>i. i + 1 < length prices \<longrightarrow> prices ! (i + 1) < prices ! i"
    and "i < length prices - 1"
  shows "gains_of prices ! i = 0"
proof -
  have "prices ! (i + 1) < prices ! i" using assms by simp
  then show ?thesis using assms(2) by (simp add: gains_of_def changes_of_def)
qed

lemma rsi_rows_no_gains:
  assumes P: "1 \<le> P" and len: "P < int (length prices)"
    and zero: "\<And>i. i < length prices - 1 \<Longrightarrow> gains_of prices ! i = 0"
  shows "\<exists>rows. rsi_rows prices P = Inr rows \<and> length rows = length prices - 1
           \<and> (\<forall>row\<in>set rows. rsi_val row = 100)"
proof -
  define p where "p = nat P"
  have Pp: "P = int p" using P by (simp add: p_def)
  let ?g = "sum_list (take p (gains_of prices)) / real_of_int P"
  let ?l = "sum_list (take p (losses_of prices)) / real_of_int P"
  have "\<forall>x\<in>set (take p (gains_of prices)). x = 0"
  proof
    fix x assume "x \<in> set (take p (gains_of prices))"
    then have "x \<in> set (gains_of prices)" by (rule in_set_takeD)
    then show "x = 0" using zero by (auto simp: in_set_conv_nth)
  qed
  then have "sum_list (take p (gains_of prices)) = 0"
    by (rule sum_list_zeros)
  then have g0: "?g = 0" by simp
  have unfold: "rsi_rows prices P
      = rsi_loop P (gains_of prices) (losses_of prices) [0..<length prices - 1] ?g ?l []"
    using P len by (simp add: rsi_rows_def py_truediv_def py_bind_def Pp py_slice_to_def Let_def)
  have "\<exists>rows. rsi_loop P (gains_of prices) (losses_of prices) [0..<length prices - 1] ?g ?l []
                  = Inr ([] @ rows)
           \<and> length rows = length [0..<length prices - 1] \<and> (\<forall>row\<in>set rows. rsi_val row = 100)"
  proof (rule rsi_loop_rows [where Inv = "\<lambda>g l. g = 0"])
    show "?g = 0" by (rule g0)
  next
    fix i and g l :: real
    assume "i \<in> set [0..<length prices - 1]" and "g = 0"
    then show "\<exists>row. rsi_step P (gains_of prices) (losses_of prices) i g l = Inr row
                 \<and> avg_gain row = 0 \<and> rsi_val row = 100"
      using P by (intro rsi_step_no_gain zero) simp_all
  qed
  then show ?thesis unfolding unfold by simp
qed

lemma calculate_rsi_rows: "rsi_rows prices P = Inr rows \<Longrightarrow> calculate_rsi prices P = Inr (map rsi_val rows)"
  by (simp add: calculate_rsi_def py_bind_def)

text \<open>
  Claim C2. For every price series of length \<open>L > P\<close> with \<open>P \<ge> 1\<close>, \<^verbatim>\<open>calculate_rsi\<close> returns
  \<open>L - 1\<close> values, and at every index where \<open>RS = 0\<close>, which is the case whenever the current
  average loss is 0 and whenever the current average gain is 0, the value is exactly 100. In
  particular, for a strictly decreasing price series every value returned is 100.
\<close>

theorem calculate_rsi_zero_rs:
  assumes "1 \<le> P" and "P < int (length prices)"
  shows "\<exists>rows. rsi_rows prices P = Inr rows
           \<and> calculate_rsi prices P = Inr (map rsi_val rows)
           \<and> length rows = length prices - 1
           \<and> (\<forall>row\<in>set rows.
                 rs row = rs_of (avg_gain row) (avg_loss row)
                 \<and> (avg_loss row = 0 \<or> avg_gain row = 0 \<longrightarrow> rs row = 0)
                 \<and> (rs row = 0 \<longrightarrow> rsi_val row = 100))
           \<and> ((\<forall>i. i + 1 < length prices \<longrightarrow> prices ! (i + 1) < prices ! i)
                \<longrightarrow> calculate_rsi prices P = Inr (replicate (length prices - 1) 100))"
proof -
  from rsi_rows_ok [OF assms]
  obtain rows where rows: "rsi_rows prices P = Inr rows" "length rows = length prices - 1"
      "\<forall>row\<in>set rows. rsi_row_ok row"
    by blast
  have each: "rs row = rs_of (avg_gain row) (avg_loss row)
                 \<and> (avg_loss row = 0 \<or> avg_gain row = 0 \<longrightarrow> rs row = 0)
                 \<and> (rs row = 0 \<longrightarrow> rsi_val row = 100)"
    if "row \<in> set rows" for row
  proof -
    have "rsi_row_ok row" using rows(3) that by simp
    then show ?thesis by (auto simp: rsi_row_ok_def rs_of_zero split: if_splits)
  qed
  have falling: "calculate_rsi prices P = Inr (replicate (length prices - 1) 100)"
    if dec: "\<forall>i. i + 1 < length prices \<longrightarrow> prices ! (i + 1) < prices ! i"
  proof -
    from rsi_rows_no_gains [OF assms gains_of_decreasing [OF dec]]
    obtain rows' where r': "rsi_rows prices P = Inr rows'" "length rows' = length prices - 1"
        "\<forall>row\<in>set rows'. rsi_val row = 100"
      by blast
    have "map rsi_val rows' = replicate (length prices - 1) 100"
      using r'(2,3) by (intro replicate_eqI) auto
    then show ?thesis using calculate_rsi_rows [OF r'(1)] by simp
  qed
  have "\<forall>row\<in>set rows.
          rs row = rs_of (avg_gain row) (avg_loss row)
          \<and> (avg_loss row = 0 \<or> avg_gain row = 0 \<longrightarrow> rs row = 0)
          \<and> (rs row = 0 \<longrightarrow> rsi_val row = 100)"
    using each by blast
  with rows(1,2) calculate_rsi_rows [OF rows(1)] falling show ?thesis by blast
qed

theorem calculate_rsi_zero_rs_witness:
  "(1::int) \<le> 2 \<and> 2 < int (length [5, 4, 3, 2, 1 :: real])
   \<and> calculate_rsi [5, 4, 3, 2, 1] 2 = Inr [100, 100, 100, 100]"
proof -
  have P: "(1::int) \<le> 2" by simp
  have L: "2 < int (length [5, 4, 3, 2, 1 :: real])" by simp
  have dec: "\<forall>i. i + 1 < length [5, 4, 3, 2, 1 :: real]
               \<longrightarrow> [5, 4, 3, 2, 1 :: real] ! (i + 1) < [5, 4, 3, 2, 1] ! i"
    by (auto simp: nth_Cons' less_Suc_eq)
  have "calculate_rsi [5, 4, 3, 2, 1] 2 = Inr (replicate (length [5, 4, 3, 2, 1 :: real] - 1) 100)"
    using calculate_rsi_zero_rs [OF P L] dec by blast
  then have run: "calculate_rsi [5, 4, 3, 2, 1] 2 = Inr [100, 100, 100, 100]"
    by (simp add: eval_nat_numeral)
  with P L show ?thesis by blast
qed



section \<open>The scan\<close>

lemma py_getitem_last: "xs \<noteq> [] \<Longrightarrow> py_getitem xs (- 1) = Inr (xs ! (length xs - 1))"
  by (cases xs) (simp_all add: py_getitem_def py_index_def py_bind_def nat_diff_distrib)

lemma py_getitem_prev: "2 \<le> length xs \<Longrightarrow> py_getitem xs (- 2) = Inr (xs ! (length xs - 2))"
  by (simp add: py_getitem_def py_index_def py_bind_def nat_diff_distrib)

lemma py_index_last: "0 < n \<Longrightarrow> py_index n (- 1) = Inr (n - 1)"
  by (simp add: py_index_def nat_diff_distrib)

lemma py_index_prev: "2 \<le> n \<Longrightarrow> py_index n (- 2) = Inr (n - 2)"
  by (simp add: py_index_def nat_diff_distrib)

lemma fresh_crossover_tail:
  assumes "2 \<le> length ema_s" and "2 \<le> length ema_l"
  shows "fresh_crossover ema_s ema_l =
           Inr (ema_l ! (length ema_l - 1) < ema_s ! (length ema_s - 1)
                \<and> ema_s ! (length ema_s - 2) \<le> ema_l ! (length ema_l - 2))"
proof -
  have "ema_s \<noteq> []" and "ema_l \<noteq> []" using assms by auto
  then show ?thesis
    using assms by (simp add: fresh_crossover_def py_getitem_last py_getitem_prev py_bind_def)
qed

lemma py_setitem_length: "py_setitem xs i v = Inr ys \<Longrightarrow> length ys = length xs"
  by (auto simp: py_setitem_def py_bind_def split: sum.splits)

lemma ema_loop_length: "ema_loop prices k stop i ema = Inr ema' \<Longrightarrow> length ema' = length ema"
proof (induction prices k stop i ema rule: ema_loop.induct)
  case (1 prices k stop i ema)
  show ?case
  proof (cases "i < stop")
    case False
    then show ?thesis using "1.prems" by (simp add: ema_loop.simps)
  next
    case True
    from "1.prems" True obtain p prev ema2 where
      st: "py_getitem prices i = Inr p" "py_getitem ema (i - 1) = Inr prev"
          "py_setitem ema i (p * k + prev * (1 - k)) = Inr ema2"
          "ema_loop prices k stop (i + 1) ema2 = Inr ema'"
      by (subst (asm) ema_loop.simps) (auto split: sum.splits)
    have "length ema' = length ema2" using "1.IH" [OF True st(1) st(2) st(3) st(4)] .
    then show ?thesis using py_setitem_length [OF st(3)] by simp
  qed
qed

lemma calculate_ema_length:
  "calculate_ema prices P = Inr ema \<Longrightarrow> ema = [] \<or> length ema = length prices"
  by (auto simp: calculate_ema_def py_bind_def Let_def split: if_splits sum.splits
           dest!: ema_loop_length py_setitem_length)

lemma make_signal_ok:
  assumes "closes \<noteq> []" "ema_s \<noteq> []" "ema_l \<noteq> []"
  shows "make_signal symbol tf closes ema_s ema_l rsi_vals =
           Inr \<lparr>sg_symbol = symbol, sg_price = closes ! (length closes - 1),
                sg_emaShort = py_round (ema_s ! (length ema_s - 1)) 4,
                sg_emaLong = py_round (ema_l ! (length ema_l - 1)) 4,
                sg_rsi = (if rsi_vals \<noteq> [] then Some (py_round (rsi_vals ! (length rsi_vals - 1)) 2)
                          else None),
                sg_timeframe = tf\<rparr>"
  using assms by (simp add: make_signal_def py_getitem_last py_bind_def)

text \<open>The body of the \<^verbatim>\<open>try\<close> once the closes are fetched and the three series computed.\<close>

lemma scan_symbol_computed:
  assumes fetch: "fst (fetch_klines w (req_exchange req) symbol (req_timeframe req)) = Inr closes"
    and gate: "\<not> int (length closes) < max (ema_long req) (rsi_period req) + 10"
    and es: "calculate_ema closes (ema_short req) = Inr ema_s"
    and el: "calculate_ema closes (ema_long req) = Inr ema_l"
    and rsi: "calculate_rsi closes (rsi_period req) = Inr rsi_vals"
    and lens: "\<not> (length ema_s < 2 \<or> length ema_l < 2)"
  shows "fst (scan_symbol w req symbol) =
           (if ema_l ! (length ema_l - 1) < ema_s ! (length ema_s - 1)
               \<and> ema_s ! (length ema_s - 2) \<le> ema_l ! (length ema_l - 2)
            then Inr (Some \<lparr>sg_symbol = symbol, sg_price = closes ! (length closes - 1),
                sg_emaShort = py_round (ema_s ! (length ema_s - 1)) 4,
                sg_emaLong = py_round (ema_l ! (length ema_l - 1)) 4,
                sg_rsi = (if rsi_vals \<noteq> [] then Some (py_round (rsi_vals ! (length rsi_vals - 1)) 2)
                          else None),
                sg_timeframe = req_timeframe req\<rparr>)
            else Inr None)"
proof -
  have ne: "ema_s \<noteq> []" "ema_l \<noteq> []" using lens by auto
  with calculate_ema_length [OF es] have "length ema_s = length closes" by simp
  with ne have c: "closes \<noteq> []" by auto
  have two: "2 \<le> length ema_s" "2 \<le> length ema_l" using lens by auto
  obtain calls where f: "fetch_klines w (req_exchange req) symbol (req_timeframe req) = (Inr closes, calls)"
    using fetch by (cases "fetch_klines w (req_exchange req) symbol (req_timeframe req)") simp
  show ?thesis
    using gate lens
    by (simp add: scan_symbol_def f py_bind_def es el rsi fresh_crossover_tail [OF two]
          make_signal_ok [OF c ne])
qed

lemma scan_loop_signals:
  "scan_loop w req symbols signals sent =
     (signals @ List.map_filter (symbol_signal w req) symbols,
      sent @ concat (map (\<lambda>symbol. snd (scan_symbol w req symbol)) symbols))"
proof (induction symbols arbitrary: signals sent)
  case Nil
  then show ?case by (simp add: List.map_filter_simps)
next
  case (Cons symbol rest)
  obtain r calls where sc: "scan_symbol w req symbol = (r, calls)"
    by (cases "scan_symbol w req symbol")
  show ?case
  proof (cases r)
    case (Inl e)
    then show ?thesis using sc Cons.IH by (simp add: List.map_filter_simps symbol_signal_def)
  next
    case (Inr found)
    then show ?thesis using sc Cons.IH
      by (cases found) (simp_all add: List.map_filter_simps symbol_signal_def)
  qed
qed

lemma handler_parsed:
  assumes "parse_request w ev = Inr req"
  shows "handler w ev =
           (if ema_long req \<le> ema_short req then (validation_response, [])
            else
              (case list_symbols w req of
                 (Inl e, calls) \<Rightarrow> (error_response e, calls)
               | (Inr symbols, calls) \<Rightarrow>
                   (ok_response (List.map_filter (symbol_signal w req) (take 50 symbols)) (utcnow_isoformat w),
                    calls @ concat (map (\<lambda>symbol. snd (scan_symbol w req symbol)) (take 50 symbols)))))"
  using assms by (simp add: handler_def scan_loop_signals split: prod.splits sum.splits)

text \<open>A parameter that \<^verbatim>\<open>int\<close> rejects ends the handler before the validation, with the 500 response.\<close>

lemma handler_unparsed: "parse_request w ev = Inl e \<Longrightarrow> handler w ev = (error_response e, [])"
  by (simp add: handler_def)

lemma symbol_signal_raised: "fst (scan_symbol w req symbol) = Inl e \<Longrightarrow> symbol_signal w req symbol = None"
  by (simp add: symbol_signal_def)

lemma map_filter_skip: "f x = None \<Longrightarrow> List.map_filter f (xs @ x # ys) = List.map_filter f (xs @ ys)"
  by (simp add: List.map_filter_def)

lemma calculate_ema_zero: "calculate_ema closes 0 = Inl ZeroDivisionError"
  by (simp add: calculate_ema_def py_truediv_def py_bind_def)

lemma scan_symbol_zero_short:
  assumes "ema_short req = 0"
  shows "fst (scan_symbol w req symbol) =
           (case fst (fetch_klines w (req_exchange req) symbol (req_timeframe req)) of
              Inl e \<Rightarrow> Inl e
            | Inr closes \<Rightarrow>
                if int (length closes) < max (ema_long req) (rsi_period req) + 10 then Inr None
                else Inl ZeroDivisionError)"
  using assms
  by (simp add: scan_symbol_def py_bind_def calculate_ema_zero split: prod.splits sum.splits)

lemma calculate_rsi_length:
  assumes "1 \<le> P" and "P < int (length prices)" and "calculate_rsi prices P = Inr vs"
  shows "length vs = length prices - 1"
proof -
  from rsi_rows_ok [OF assms(1,2)]
  obtain rows where "rsi_rows prices P = Inr rows" "length rows = length prices - 1" by blast
  then show ?thesis using assms(3) by (auto simp: calculate_rsi_def py_bind_def)
qed

lemma scan_symbol_signal_rsi:
  assumes P: "1 \<le> rsi_period req" and found: "fst (scan_symbol w req symbol) = Inr (Some sg)"
  shows "\<exists>closes rsi_vals.
           fst (fetch_klines w (req_exchange req) symbol (req_timeframe req)) = Inr closes
         \<and> rsi_period req < int (length closes)
         \<and> calculate_rsi closes (rsi_period req) = Inr rsi_vals
         \<and> rsi_vals \<noteq> []
         \<and> sg_rsi sg = Some (py_round (rsi_vals ! (length rsi_vals - 1)) 2)"
proof -
  from found obtain closes ema_s ema_l rsi_vals where
    st: "fst (fetch_klines w (req_exchange req) symbol (req_timeframe req)) = Inr closes"
        "\<not> int (length closes) < max (ema_long req) (rsi_period req) + 10"
        "calculate_ema closes (ema_short req) = Inr ema_s"
        "calculate_ema closes (ema_long req) = Inr ema_l"
        "calculate_rsi closes (rsi_period req) = Inr rsi_vals"
        "\<not> (length ema_s < 2 \<or> length ema_l < 2)"
    by (auto simp: scan_symbol_def py_bind_def split: prod.splits sum.splits if_splits)
  have len: "rsi_period req < int (length closes)" using st(2) by simp
  have "length rsi_vals = length closes - 1"
    by (rule calculate_rsi_length [OF P len st(5)])
  then have ne: "rsi_vals \<noteq> []" using len P by auto
  have "sg_rsi sg = Some (py_round (rsi_vals ! (length rsi_vals - 1)) 2)"
    using found ne unfolding scan_symbol_computed [OF st] by (auto split: if_splits)
  with st(1,5) len ne show ?thesis by blast
qed

text \<open>
  Claim C3. For every symbol that passes the data-length gate and the series-length gate of
  the scan loop (its closes are fetched, long enough, and the three series are computed
  without an exception), a signal is emitted if and only if \<open>ema_s[-1] > ema_l[-1]\<close> and
  \<open>ema_s[-2] \<le> ema_l[-2]\<close>. In particular the condition holds of the short series 1, 1, 3
  against the long series 2, 2, 2, and fails of 3, 3, 3 against 2, 2, 2.
\<close>

theorem crossover_signal:
  assumes "fst (fetch_klines w (req_exchange req) symbol (req_timeframe req)) = Inr closes"
    and "\<not> int (length closes) < max (ema_long req) (rsi_period req) + 10"
    and "calculate_ema closes (ema_short req) = Inr ema_s"
    and "calculate_ema closes (ema_long req) = Inr ema_l"
    and "calculate_rsi closes (rsi_period req) = Inr rsi_vals"
    and "\<not> (length ema_s < 2 \<or> length ema_l < 2)"
  shows "((\<exists>sg. fst (scan_symbol w req symbol) = Inr (Some sg))
            \<longleftrightarrow> ema_l ! (length ema_l - 1) < ema_s ! (length ema_s - 1)
                 \<and> ema_s ! (length ema_s - 2) \<le> ema_l ! (length ema_l - 2))
         \<and> ((\<exists>sg. fst (scan_loop w req [symbol] signals sent) = signals @ [sg])
            \<longleftrightarrow> ema_l ! (length ema_l - 1) < ema_s ! (length ema_s - 1)
                 \<and> ema_s ! (length ema_s - 2) \<le> ema_l ! (length ema_l - 2))
         \<and> (fst (scan_symbol w req symbol) = Inr None
            \<longleftrightarrow> \<not> (ema_l ! (length ema_l - 1) < ema_s ! (length ema_s - 1)
                    \<and> ema_s ! (length ema_s - 2) \<le> ema_l ! (length ema_l - 2)))
         \<and> fresh_crossover ema_s ema_l
              = Inr (ema_l ! (length ema_l - 1) < ema_s ! (length ema_s - 1)
                     \<and> ema_s ! (length ema_s - 2) \<le> ema_l ! (length ema_l - 2))
         \<and> fresh_crossover [1, 1, 3] [2, 2, 2] = Inr True
         \<and> fresh_crossover [3, 3, 3] [2, 2, 2] = Inr False"
proof -
  let ?cross = "ema_l ! (length ema_l - 1) < ema_s ! (length ema_s - 1)
                 \<and> ema_s ! (length ema_s - 2) \<le> ema_l ! (length ema_l - 2)"
  note body = scan_symbol_computed [OF assms]
  have a: "(\<exists>sg. fst (scan_symbol w req symbol) = Inr (Some sg)) \<longleftrightarrow> ?cross"
    unfolding body by simp
  have c: "fst (scan_symbol w req symbol) = Inr None \<longleftrightarrow> \<not> ?cross"
    unfolding body by simp
  have loop: "fst (scan_loop w req [symbol] signals sent)
                = (case fst (scan_symbol w req symbol) of
                     Inl e \<Rightarrow> signals | Inr None \<Rightarrow> signals | Inr (Some sg) \<Rightarrow> signals @ [sg])"
    by (simp split: prod.splits sum.splits option.splits)
  have b: "(\<exists>sg. fst (scan_loop w req [symbol] signals sent) = signals @ [sg]) \<longleftrightarrow> ?cross"
    unfolding loop body by simp
  have two: "2 \<le> length ema_s" "2 \<le> length ema_l" using assms(6) by auto
  have d: "fresh_crossover ema_s ema_l = Inr ?cross"
    by (rule fresh_crossover_tail [OF two])
  have e: "fresh_crossover [1, 1, 3] [2, 2, 2] = Inr True"
    by (simp add: fresh_crossover_tail)
  have f: "fresh_crossover [3, 3, 3] [2, 2, 2] = Inr False"
    by (simp add: fresh_crossover_tail)
  from a b c d e f show ?thesis by blast
qed

theorem crossover_signal_witness:
  "fst (fetch_klines test_world (req_exchange (test_request 1 2)) ''ABCUSDT''
          (req_timeframe (test_request 1 2))) = Inr abc_closes
   \<and> \<not> int (length abc_closes)
         < max (ema_long (test_request 1 2)) (rsi_period (test_request 1 2)) + 10
   \<and> calculate_ema abc_closes (ema_short (test_request 1 2)) = Inr abc_closes
   \<and> calculate_ema abc_closes (ema_long (test_request 1 2))
        = Inr [0, 10, 10, 10, 10, 10, 10, 10, 10, 10, 4, 68]
   \<and> calculate_rsi abc_closes (rsi_period (test_request 1 2))
        = Inr [100, 100, 100, 100, 100, 100, 100, 100, 100, 100, 2200 / 23]
   \<and> \<not> (length abc_closes < 2 \<or> length [0, 10, 10, 10, 10, 10, 10, 10, 10, 10, 4, 68 :: real] < 2)
   \<and> (\<exists>sg. fst (scan_symbol test_world (test_request 1 2) ''ABCUSDT'') = Inr (Some sg))"
proof -
  let ?l = "[0, 10, 10, 10, 10, 10, 10, 10, 10, 10, 4, 68 :: real]"
  have f: "fst (fetch_klines test_world (req_exchange (test_request 1 2)) ''ABCUSDT''
          (req_timeframe (test_request 1 2))) = Inr abc_closes"
    by code_simp
  have g: "\<not> int (length abc_closes)
         < max (ema_long (test_request 1 2)) (rsi_period (test_request 1 2)) + 10"
    by code_simp
  have s: "calculate_ema abc_closes (ema_short (test_request 1 2)) = Inr abc_closes"
    by code_simp
  have l: "calculate_ema abc_closes (ema_long (test_request 1 2)) = Inr ?l"
    by code_simp
  have r: "calculate_rsi abc_closes (rsi_period (test_request 1 2))
        = Inr [100, 100, 100, 100, 100, 100, 100, 100, 100, 100, 2200 / 23]"
    by code_simp
  have n: "\<not> (length abc_closes < 2 \<or> length ?l < 2)"
    by (simp add: abc_closes_def)
  have c: "?l ! (length ?l - 1) < abc_closes ! (length abc_closes - 1)
           \<and> abc_closes ! (length abc_closes - 2) \<le> ?l ! (length ?l - 2)"
    by (simp add: abc_closes_def)
  have "\<exists>sg. fst (scan_symbol test_world (test_request 1 2) ''ABCUSDT'') = Inr (Some sg)"
    using crossover_signal [OF f g s l r n, of "[]" "[]"] c by blast
  with f g s l r n show ?thesis by blast
qed

text \<open>
  Claim C4. For every request that reaches the scan loop and every symbol for which the
  candle fetch or the indicator computation raises, the exception is caught inside the loop
  and the symbol is skipped: the handler still answers 200, no exception of a symbol
  escapes, and the signals returned are those of all the other symbols, in scan order.
\<close>

theorem scan_isolation:
  assumes "parse_request w ev = Inr req" and "ema_short req < ema_long req"
    and "fst (list_symbols w req) = Inr symbols"
  shows "fst (handler w ev)
           = ok_response (List.map_filter (symbol_signal w req) (take 50 symbols)) (utcnow_isoformat w)
         \<and> statusCode (fst (handler w ev)) = 200
         \<and> (\<forall>x e. fst (scan_symbol w req x) = Inl e \<longrightarrow>
               symbol_signal w req x = None
               \<and> (\<forall>xs ys signals sent.
                     fst (scan_loop w req (xs @ x # ys) signals sent)
                       = fst (scan_loop w req (xs @ ys) signals sent)))"
proof -
  obtain calls where l: "list_symbols w req = (Inr symbols, calls)"
    using assms(3) by (cases "list_symbols w req") simp
  have h: "fst (handler w ev)
           = ok_response (List.map_filter (symbol_signal w req) (take 50 symbols)) (utcnow_isoformat w)"
    using assms(1,2) by (simp add: handler_parsed l)
  have s: "statusCode (fst (handler w ev)) = 200"
    unfolding h by (simp add: ok_response_def)
  have skip: "symbol_signal w req x = None
               \<and> (\<forall>xs ys signals sent.
                     fst (scan_loop w req (xs @ x # ys) signals sent)
                       = fst (scan_loop w req (xs @ ys) signals sent))"
    if "fst (scan_symbol w req x) = Inl e" for x e
  proof -
    have n: "symbol_signal w req x = None" using that by (rule symbol_signal_raised)
    then show ?thesis by (simp add: scan_loop_signals map_filter_skip)
  qed
  from h s skip show ?thesis by blast
qed

theorem scan_isolation_witness:
  "parse_request test_world (test_event ''1'' ''2'') = Inr (test_request 1 2)
   \<and> ema_short (test_request 1 2) < ema_long (test_request 1 2)
   \<and> fst (list_symbols test_world (test_request 1 2)) = Inr [''DOWNUSDT'', ''ABCUSDT'', ''FLATUSDT'']
   \<and> fst (scan_symbol test_world (test_request 1 2) ''DOWNUSDT'')
        = Inl (OtherException ''ConnectionError'')
   \<and> symbol_signal test_world (test_request 1 2) ''DOWNUSDT'' = None
   \<and> fst (handler test_world (test_event ''1'' ''2''))
        = ok_response [abc_signal] ''2024-01-01T00:00:00''"
proof -
  have p: "parse_request test_world (test_event ''1'' ''2'') = Inr (test_request 1 2)"
    by code_simp
  have v: "ema_short (test_request 1 2) < ema_long (test_request 1 2)"
    by (simp add: test_request_def)
  have l: "fst (list_symbols test_world (test_request 1 2))
             = Inr [''DOWNUSDT'', ''ABCUSDT'', ''FLATUSDT'']"
    by code_simp
  have d: "fst (scan_symbol test_world (test_request 1 2) ''DOWNUSDT'')
             = Inl (OtherException ''ConnectionError'')"
    by code_simp
  have m: "List.map_filter (symbol_signal test_world (test_request 1 2))
             (take 50 [''DOWNUSDT'', ''ABCUSDT'', ''FLATUSDT'']) = [abc_signal]"
    by code_simp
  have t: "utcnow_isoformat test_world = ''2024-01-01T00:00:00''"
    by (simp add: test_world_def)
  note iso = scan_isolation [OF p v l]
  have h: "fst (handler test_world (test_event ''1'' ''2''))
             = ok_response [abc_signal] ''2024-01-01T00:00:00''"
    using iso unfolding m t by simp
  have n: "symbol_signal test_world (test_request 1 2) ''DOWNUSDT'' = None"
    using iso d by blast
  from p v l d n h show ?thesis by simp
qed

text \<open>
  Claim C5. For every request with \<open>emaShort \<ge> emaLong\<close>, the handler returns the 400
  validation response before any symbol list or candle is fetched, and computes no signal.
  The request is the one the handler has read from the query: a numeric parameter that is
  not an integer is rejected earlier, with the 500 response.
\<close>

theorem validation_before_fetch:
  assumes "parse_request w ev = Inr req" and "ema_long req \<le> ema_short req"
  shows "handler w ev = (validation_response, [])
         \<and> statusCode validation_response = 400
         \<and> body validation_response = ErrorMessage ''EMA Short must be < EMA Long''"
  using assms by (simp add: handler_parsed validation_response_def)

theorem validation_before_fetch_witness:
  "parse_request test_world (test_event ''30'' ''10'') = Inr (test_request 30 10)
   \<and> ema_long (test_request 30 10) \<le> ema_short (test_request 30 10)
   \<and> handler test_world (test_event ''30'' ''10'') = (validation_response, [])"
proof -
  have p: "parse_request test_world (test_event ''30'' ''10'') = Inr (test_request 30 10)"
    by code_simp
  have v: "ema_long (test_request 30 10) \<le> ema_short (test_request 30 10)"
    by (simp add: test_request_def)
  from validation_before_fetch [OF p v] p v show ?thesis by simp
qed



text \<open>
  Claim C9. For every request with \<open>rsiPeriod \<ge> 1\<close>, the \<open>rsi\<close> field of every signal the scan
  returns is a number, the last RSI value rounded to 2 decimal places, and never null: the
  closes of an emitted signal are more than \<open>rsiPeriod\<close>, so the RSI series is not empty.
\<close>

theorem signal_rsi_present:
  assumes "parse_request w ev = Inr req" and "1 \<le> rsi_period req"
    and "body (fst (handler w ev)) = ScanResult sigs n ts"
  shows "\<forall>sg\<in>set sigs.
           sg_rsi sg \<noteq> None
         \<and> (\<exists>symbol closes rsi_vals.
               fst (fetch_klines w (req_exchange req) symbol (req_timeframe req)) = Inr closes
             \<and> rsi_period req < int (length closes)
             \<and> calculate_rsi closes (rsi_period req) = Inr rsi_vals
             \<and> rsi_vals \<noteq> []
             \<and> sg_rsi sg = Some (py_round (rsi_vals ! (length rsi_vals - 1)) 2))"
proof
  fix sg assume sg: "sg \<in> set sigs"
  obtain symbols where sigs: "sigs = List.map_filter (symbol_signal w req) (take 50 symbols)"
    using assms(1,3)
    by (auto simp: handler_parsed validation_response_def error_response_def ok_response_def
             split: if_splits prod.splits sum.splits)
  with sg obtain symbol where "symbol_signal w req symbol = Some sg"
    by (auto simp: List.map_filter_def)
  then have "fst (scan_symbol w req symbol) = Inr (Some sg)"
    by (simp add: symbol_signal_def split: sum.splits)
  from scan_symbol_signal_rsi [OF assms(2) this]
  show "sg_rsi sg \<noteq> None
         \<and> (\<exists>symbol closes rsi_vals.
               fst (fetch_klines w (req_exchange req) symbol (req_timeframe req)) = Inr closes
             \<and> rsi_period req < int (length closes)
             \<and> calculate_rsi closes (rsi_period req) = Inr rsi_vals
             \<and> rsi_vals \<noteq> []
             \<and> sg_rsi sg = Some (py_round (rsi_vals ! (length rsi_vals - 1)) 2))"
    by auto
qed

theorem signal_rsi_present_witness:
  "parse_request test_world (test_event ''1'' ''2'') = Inr (test_request 1 2)
   \<and> 1 \<le> rsi_period (test_request 1 2)
   \<and> body (fst (handler test_world (test_event ''1'' ''2'')))
        = ScanResult [abc_signal] 1 ''2024-01-01T00:00:00Z''
   \<and> sg_rsi abc_signal \<noteq> None"
proof -
  have p: "parse_request test_world (test_event ''1'' ''2'') = Inr (test_request 1 2)"
    by code_simp
  have r: "1 \<le> rsi_period (test_request 1 2)"
    by (simp add: test_request_def)
  have b: "body (fst (handler test_world (test_event ''1'' ''2'')))
             = ScanResult [abc_signal] 1 ''2024-01-01T00:00:00Z''"
    by code_simp
  have "sg_rsi abc_signal \<noteq> None"
    using signal_rsi_present [OF p r b] by simp
  with p r b show ?thesis by blast
qed

text \<open>
  Claim C10. For every request with \<open>emaShort = 0\<close> and \<open>emaLong \<ge> 1\<close> the validation passes;
  \<^verbatim>\<open>calculate_ema(closes, 0)\<close> raises \<^verbatim>\<open>ZeroDivisionError\<close> for every close series, so every
  symbol that reaches the computation raises it, the loop catches it, no symbol yields a
  signal, and once the symbol list is fetched the handler answers 200 with no signal and
  count 0.
\<close>

theorem zero_short_period:
  assumes "parse_request w ev = Inr req" and "ema_short req = 0" and "1 \<le> ema_long req"
  shows "(\<forall>closes. calculate_ema closes 0 = Inl ZeroDivisionError)
         \<and> (\<forall>symbol closes.
               fst (fetch_klines w (req_exchange req) symbol (req_timeframe req)) = Inr closes
               \<and> \<not> int (length closes) < max (ema_long req) (rsi_period req) + 10
               \<longrightarrow> fst (scan_symbol w req symbol) = Inl ZeroDivisionError)
         \<and> (\<forall>symbol. symbol_signal w req symbol = None)
         \<and> fst (handler w ev) \<noteq> validation_response
         \<and> (\<forall>symbols. fst (list_symbols w req) = Inr symbols \<longrightarrow>
               fst (handler w ev) = ok_response [] (utcnow_isoformat w)
               \<and> statusCode (fst (handler w ev)) = 200
               \<and> body (fst (handler w ev)) = ScanResult [] 0 (utcnow_isoformat w @ ''Z''))"
proof -
  have none: "symbol_signal w req symbol = None" for symbol
    using scan_symbol_zero_short [OF assms(2), of w symbol]
    by (simp add: symbol_signal_def split: sum.splits if_splits)
  have raised: "fst (scan_symbol w req symbol) = Inl ZeroDivisionError"
    if "fst (fetch_klines w (req_exchange req) symbol (req_timeframe req)) = Inr closes
        \<and> \<not> int (length closes) < max (ema_long req) (rsi_period req) + 10"
    for symbol closes
    using that by (simp add: scan_symbol_zero_short [OF assms(2)])
  have empty: "List.map_filter (symbol_signal w req) symbols = []" for symbols
    by (simp add: List.map_filter_def none)
  have h: "handler w ev =
             (case list_symbols w req of
                 (Inl e, calls) \<Rightarrow> (error_response e, calls)
               | (Inr symbols, calls) \<Rightarrow>
                   (ok_response [] (utcnow_isoformat w),
                    calls @ concat (map (\<lambda>symbol. snd (scan_symbol w req symbol)) (take 50 symbols))))"
    using assms by (simp add: handler_parsed empty split: prod.splits sum.splits)
  have passes: "fst (handler w ev) \<noteq> validation_response"
    unfolding h
    by (auto simp: validation_response_def error_response_def ok_response_def
             split: prod.splits sum.splits)
  have ok: "fst (handler w ev) = ok_response [] (utcnow_isoformat w)
               \<and> statusCode (fst (handler w ev)) = 200
               \<and> body (fst (handler w ev)) = ScanResult [] 0 (utcnow_isoformat w @ ''Z'')"
    if listed: "fst (list_symbols w req) = Inr symbols" for symbols
  proof -
    obtain calls where "list_symbols w req = (Inr symbols, calls)"
      using listed by (cases "list_symbols w req") simp
    then show ?thesis unfolding h by (simp add: ok_response_def)
  qed
  from calculate_ema_zero raised none passes ok show ?thesis by blast
qed

theorem zero_short_period_witness:
  "parse_request test_world (test_event ''0'' ''2'') = Inr (test_request 0 2)
   \<and> ema_short (test_request 0 2) = 0 \<and> 1 \<le> ema_long (test_request 0 2)
   \<and> fst (scan_symbol test_world (test_request 0 2) ''ABCUSDT'') = Inl ZeroDivisionError
   \<and> fst (list_symbols test_world (test_request 0 2)) = Inr [''DOWNUSDT'', ''ABCUSDT'', ''FLATUSDT'']
   \<and> statusCode (fst (handler test_world (test_event ''0'' ''2''))) = 200
   \<and> body (fst (handler test_world (test_event ''0'' ''2''))) = ScanResult [] 0 ''2024-01-01T00:00:00Z''"
proof -
  have p: "parse_request test_world (test_event ''0'' ''2'') = Inr (test_request 0 2)"
    by code_simp
  have s: "ema_short (test_request 0 2) = 0" and g: "1 \<le> ema_long (test_request 0 2)"
    by (simp_all add: test_request_def)
  have f: "fst (fetch_klines test_world (req_exchange (test_request 0 2)) ''ABCUSDT''
                  (req_timeframe (test_request 0 2))) = Inr abc_closes
           \<and> \<not> int (length abc_closes)
                 < max (ema_long (test_request 0 2)) (rsi_period (test_request 0 2)) + 10"
    by code_simp
  have l: "fst (list_symbols test_world (test_request 0 2))
             = Inr [''DOWNUSDT'', ''ABCUSDT'', ''FLATUSDT'']"
    by code_simp
  have t: "utcnow_isoformat test_world = ''2024-01-01T00:00:00''"
    by (simp add: test_world_def)
  note z = zero_short_period [OF p s g]
  have r: "fst (scan_symbol test_world (test_request 0 2) ''ABCUSDT'') = Inl ZeroDivisionError"
    using z f by blast
  have "statusCode (fst (handler test_world (test_event ''0'' ''2''))) = 200
        \<and> body (fst (handler test_world (test_event ''0'' ''2'')))
            = ScanResult [] 0 (utcnow_isoformat test_world @ ''Z'')"
    using z l by blast
  then have h: "statusCode (fst (handler test_world (test_event ''0'' ''2''))) = 200
        \<and> body (fst (handler test_world (test_event ''0'' ''2'')))
            = ScanResult [] 0 ''2024-01-01T00:00:00Z''"
    unfolding t by simp
  from p s g r l h show ?thesis by simp
qed

end
